theory Spec2Isabelle
  imports Complex_Main "HOL-Library.Word"
begin

unbundle bit_operations_syntax

section \<open>Bytes and the integer conversions of Python\<close>

text \<open>
  The actuator script \<^verbatim>\<open>src/actuator.py\<close> works on Python \<^verbatim>\<open>bytes\<close> objects and
  on Python's unbounded integers. A byte is an \<open>8 word\<close>, a \<^verbatim>\<open>bytes\<close> value a list of
  them, and every Python \<^verbatim>\<open>int\<close> is an \<open>int\<close>. An exception of the source is a value of
  \<open>py_error\<close>, and a computation that may raise returns \<open>py_error + 'a\<close>.
\<close>

type_synonym byte = "8 word"

datatype py_error = OverflowError | ValueError | TypeError | IndexError

text \<open>
  \<^verbatim>\<open>n.to_bytes(length, byteorder=..., signed=False)\<close>: raises OverflowError when \<open>n\<close> is
  negative or does not fit into \<open>length\<close> bytes.
\<close>

fun le_digits :: "nat \<Rightarrow> int \<Rightarrow> byte list" where
  "le_digits 0 n = []"
| "le_digits (Suc k) n = word_of_int (n mod 256) # le_digits k (n div 256)"

definition to_bytes_little :: "int \<Rightarrow> nat \<Rightarrow> py_error + byte list" where
  "to_bytes_little n len =
     (if n < 0 \<or> 2 ^ (8 * len) \<le> n then Inl OverflowError else Inr (le_digits len n))"

text \<open>
  \<^verbatim>\<open>n.to_bytes(length, byteorder='big', signed=True)\<close>: raises OverflowError unless
  \<open>- 2 ^ (8 * length - 1) \<le> n < 2 ^ (8 * length - 1)\<close>; otherwise the two's complement
  of \<open>n\<close> on \<open>length\<close> bytes, most significant byte first.
\<close>

definition to_bytes_big_signed :: "int \<Rightarrow> nat \<Rightarrow> py_error + byte list" where
  "to_bytes_big_signed n len =
     (if 2 * n < - (2 ^ (8 * len)) \<or> 2 ^ (8 * len) \<le> 2 * n then Inl OverflowError
      else Inr (rev (le_digits len (n mod 2 ^ (8 * len)))))"

text \<open>\<^verbatim>\<open>int.from_bytes(bs, byteorder='big')\<close> and its \<^verbatim>\<open>signed=True\<close> variant.\<close>

definition from_bytes_big :: "byte list \<Rightarrow> int" where
  "from_bytes_big bs = foldl (\<lambda>acc b. acc * 256 + uint b) 0 bs"

definition from_bytes_big_signed :: "byte list \<Rightarrow> int" where
  "from_bytes_big_signed bs =
     (let u = from_bytes_big bs
      in if 2 ^ (8 * length bs) \<le> 2 * u then u - 2 ^ (8 * length bs) else u)"

text \<open>The slice \<^verbatim>\<open>xs[i:j]\<close> for indices \<open>0 \<le> i \<le> j\<close> (it never raises).\<close>

definition slice :: "'a list \<Rightarrow> nat \<Rightarrow> nat \<Rightarrow> 'a list" where
  "slice xs i j = take (j - i) (drop i xs)"

text \<open>The subscript \<^verbatim>\<open>xs[i]\<close> for \<open>0 \<le> i\<close>: IndexError out of range.\<close>

definition subscript :: "'a list \<Rightarrow> nat \<Rightarrow> py_error + 'a" where
  "subscript xs i = (if i < length xs then Inr (xs ! i) else Inl IndexError)"


section \<open>The checksum: \<^verbatim>\<open>modbus_crc\<close>\<close>

text \<open>
  \<^verbatim>\<open>
  def modbus_crc(data):
      crc = 0xFFFF
      for pos in data:
          crc ^= pos
          for _ in range(8):
              if (crc & 1):
                  crc >>= 1
                  crc ^= 0xA001
              else:
                  crc >>= 1
      return crc.to_bytes(2, byteorder='little')
  \<close>
  The accumulator is a Python integer, so it is an \<open>int\<close> here; that it stays below
  \<open>2 ^ 16\<close> (and \<^verbatim>\<open>to_bytes\<close> never raises) is a theorem, not part of the model.
\<close>

definition crc_shift :: "int \<Rightarrow> int" where
  "crc_shift crc =
     (if crc AND 1 \<noteq> 0 then drop_bit 1 crc XOR 0xA001 else drop_bit 1 crc)"

fun crc_rounds :: "nat \<Rightarrow> int \<Rightarrow> int" where
  "crc_rounds 0 crc = crc"
| "crc_rounds (Suc k) crc = crc_rounds k (crc_shift crc)"

definition crc_update :: "int \<Rightarrow> byte \<Rightarrow> int" where
  "crc_update crc pos = crc_rounds 8 (crc XOR uint pos)"

definition crc_accumulate :: "byte list \<Rightarrow> int" where
  "crc_accumulate data = foldl crc_update 0xFFFF data"

definition modbus_crc :: "byte list \<Rightarrow> py_error + byte list" where
  "modbus_crc data = to_bytes_little (crc_accumulate data) 2"

text \<open>
  The checksum as section 4.1 of the specification words it, on a 16-bit register:
  start from \<open>0xFFFF\<close>; for each byte, XOR it into the low byte, then eight times shift
  right by one, XOR-ing with \<open>0xA001\<close> when the bit shifted out was set.
\<close>

definition crc16_shift :: "16 word \<Rightarrow> 16 word" where
  "crc16_shift w = (if bit w 0 then drop_bit 1 w XOR 0xA001 else drop_bit 1 w)"

definition crc16_update :: "16 word \<Rightarrow> byte \<Rightarrow> 16 word" where
  "crc16_update w b = (crc16_shift ^^ 8) (w XOR ucast b)"

definition crc16_spec :: "byte list \<Rightarrow> 16 word" where
  "crc16_spec data = foldl crc16_update 0xFFFF data"

text \<open>A 16-bit value serialised little-endian: low byte first.\<close>

definition le16 :: "16 word \<Rightarrow> byte list" where
  "le16 w = [ucast w, ucast (drop_bit 8 w)]"


section \<open>Frames: \<^verbatim>\<open>build_position_command\<close> and \<^verbatim>\<open>parse_motor_response_line\<close>\<close>

text \<open>
  \<^verbatim>\<open>
  def build_position_command(position_um):
      position_bytes = position_um.to_bytes(4, byteorder='big', signed=True)
      request = bytes([0x01, 0x64, 0x1E]) + position_bytes
      crc = modbus_crc(request)
      return request + crc
  \<close>
\<close>

definition build_position_command :: "int \<Rightarrow> py_error + byte list" where
  "build_position_command position_um =
     (case to_bytes_big_signed position_um 4 of
        Inl e \<Rightarrow> Inl e
      | Inr position_bytes \<Rightarrow>
          (let request = [0x01, 0x64, 0x1E] @ position_bytes
           in case modbus_crc request of
                Inl e \<Rightarrow> Inl e
              | Inr crc \<Rightarrow> Inr (request @ crc)))"

text \<open>
  The lines that the script prints are values of \<open>message\<close>; the measurements of the
  telemetry line are kept as a record.
\<close>

record telemetry =
  pos :: int
  force :: int
  power :: int
  temp :: int
  voltage :: int
  errors :: int

datatype message =
    Invalid_Response      \<comment> \<open>\<^verbatim>\<open>Invalid response length or no response received.\<close>\<close>
  | Unexpected_Function byte  \<comment> \<open>\<^verbatim>\<open>Unexpected function code: 0x..\<close>\<close>
  | Telemetry_Line telemetry  \<comment> \<open>\<^verbatim>\<open>pos: .. | force: .. | power: .. | temp: .. | voltage: .. | errors: ..\<close>\<close>
  | Zeroing               \<comment> \<open>\<^verbatim>\<open>Zeroing at current position...\<close>\<close>
  | Zero_Set "int option" \<comment> \<open>\<^verbatim>\<open>Zero set at .. um\<close>\<close>
  | Zero_Failed           \<comment> \<open>\<^verbatim>\<open>Failed to read position to set zero.\<close>\<close>
  | Invalid_Input         \<comment> \<open>\<^verbatim>\<open>Invalid input. Enter a number, 'z' to zero, or 'q' to quit.\<close>\<close>
  | Moving int int        \<comment> \<open>\<^verbatim>\<open>Moving to .. um from zero (absolute target: .. um). Streaming...\<close>\<close>
  | Streaming_Stopped     \<comment> \<open>\<^verbatim>\<open>Streaming stopped.\<close>\<close>

text \<open>
  \<^verbatim>\<open>
  def parse_motor_response_line(response):
      if response is None or len(response) != 19:
          print("Invalid response length or no response received.")
          return None
      if response[1] != 0x64:
          print(f"Unexpected function code: 0x{response[1]:02X}")
          return None
      pos = int.from_bytes(response[2:6], byteorder='big', signed=True)
      force = int.from_bytes(response[6:10], byteorder='big', signed=True)
      power = int.from_bytes(response[10:12], byteorder='big')
      temp = response[12]
      voltage = int.from_bytes(response[13:15], byteorder='big')
      errors = int.from_bytes(response[15:17], byteorder='big')
      print(f"pos: {pos:>7} ... errors: 0x{errors:04X}")
      return pos
  \<close>
  The function prints one line and returns the position or \<^verbatim>\<open>None\<close>; the model returns
  both. Each subscript is a possible IndexError.
\<close>

definition parse_motor_response_line ::
    "byte list option \<Rightarrow> py_error + (message \<times> int option)" where
  "parse_motor_response_line response =
     (case response of
        None \<Rightarrow> Inr (Invalid_Response, None)
      | Some r \<Rightarrow>
          if length r \<noteq> 19 then Inr (Invalid_Response, None)
          else (case subscript r 1 of
                  Inl e \<Rightarrow> Inl e
                | Inr fc \<Rightarrow>
                    if fc \<noteq> 0x64 then Inr (Unexpected_Function fc, None)
                    else (case subscript r 12 of
                            Inl e \<Rightarrow> Inl e
                          | Inr t \<Rightarrow>
                              Inr (Telemetry_Line
                                     \<lparr>pos = from_bytes_big_signed (slice r 2 6),
                                      force = from_bytes_big_signed (slice r 6 10),
                                      power = from_bytes_big (slice r 10 12),
                                      temp = uint t,
                                      voltage = from_bytes_big (slice r 13 15),
                                      errors = from_bytes_big (slice r 15 17)\<rparr>,
                                   Some (from_bytes_big_signed (slice r 2 6))))))"


text \<open>
  The big-endian two's complement encoding of a 32-bit value, as section 6 of the
  specification lays out the payload of a move frame: most significant byte first.
\<close>

definition be32 :: "32 word \<Rightarrow> byte list" where
  "be32 w = [ucast (drop_bit 24 w), ucast (drop_bit 16 w), ucast (drop_bit 8 w), ucast w]"

text \<open>
  The fields of a response frame as section 6 of the specification types them: a signed
  32-bit and an unsigned 16-bit value, each given by its bytes, most significant first.
\<close>

definition s32_be :: "byte \<Rightarrow> byte \<Rightarrow> byte \<Rightarrow> byte \<Rightarrow> int" where
  "s32_be a b c d =
     sint (word_of_int (uint a * 2 ^ 24 + uint b * 2 ^ 16 + uint c * 2 ^ 8 + uint d) :: 32 word)"

definition u16_be :: "byte \<Rightarrow> byte \<Rightarrow> int" where
  "u16_be a b = uint (word_of_int (uint a * 2 ^ 8 + uint b) :: 16 word)"


section \<open>The operator console\<close>

text \<open>
  A console line is a \<open>string\<close>; its characters stand for the code points 0 to 255.
  \<^verbatim>\<open>user_input = input(...).strip().lower()\<close>: \<^verbatim>\<open>strip\<close> removes the characters that
  \<^verbatim>\<open>str.isspace\<close> accepts from both ends, \<^verbatim>\<open>lower\<close> maps the upper-case letters of
  that range to lower case.
\<close>

definition is_space :: "char \<Rightarrow> bool" where
  "is_space c = (of_char c \<in> set [9, 10, 11, 12, 13, 28, 29, 30, 31, 32, 133, 160 :: nat])"

definition py_strip :: "string \<Rightarrow> string" where
  "py_strip s = rev (dropWhile is_space (rev (dropWhile is_space s)))"

definition lower_char :: "char \<Rightarrow> char" where
  "lower_char c =
     (let n = of_char c :: nat
      in if (65 \<le> n \<and> n \<le> 90) \<or> (192 \<le> n \<and> n \<le> 222 \<and> n \<noteq> 215)
         then char_of (n + 32) else c)"

definition py_lower :: "string \<Rightarrow> string" where
  "py_lower s = map lower_char s"

text \<open>
  \<^verbatim>\<open>float(user_input)\<close>. The strings that \<^verbatim>\<open>float\<close> accepts are, after an optional
  sign, \<^verbatim>\<open>inf\<close>, \<^verbatim>\<open>infinity\<close>, \<^verbatim>\<open>nan\<close>, or a decimal literal
  \<^verbatim>\<open>
  digitpart   ::= digit (["_"] digit)*
  number      ::= [digitpart] "." digitpart | digitpart ["."]
  exponent    ::= "e" ["+" | "-"] digitpart
  floatnumber ::= number [exponent]
  \<close>
  in any letter case; every other string raises ValueError. The argument here is already
  stripped and in lower case, so neither is repeated. A decimal literal denotes a
  rational number; the float is that number rounded to binary64, which is the parameter
  \<open>round_binary64\<close> of the model (a large literal such as \<^verbatim>\<open>1e999\<close> rounds to infinity).
\<close>

datatype py_float = Finite rat | Pos_Inf | Neg_Inf | NaN

definition is_digit :: "char \<Rightarrow> bool" where
  "is_digit c = (c \<in> set ''0123456789'')"

fun digitpart :: "string \<Rightarrow> bool" where
  "digitpart [] = False"
| "digitpart [c] = is_digit c"
| "digitpart (c # d # cs) =
     (is_digit c \<and> (if d = CHR ''_'' then digitpart cs else digitpart (d # cs)))"

definition digits_value :: "string \<Rightarrow> nat" where
  "digits_value s = foldl (\<lambda>acc c. 10 * acc + (of_char c - 48)) 0 (filter is_digit s)"

definition is_number :: "string \<Rightarrow> bool" where
  "is_number s =
     (let ip = takeWhile (\<lambda>c. c \<noteq> CHR ''.'') s; rest = dropWhile (\<lambda>c. c \<noteq> CHR ''.'') s
      in if rest = [] then digitpart ip
         else (digitpart ip \<and> tl rest = []) \<or> ((ip = [] \<or> digitpart ip) \<and> digitpart (tl rest)))"

definition number_value :: "string \<Rightarrow> rat" where
  "number_value s =
     (let ip = takeWhile (\<lambda>c. c \<noteq> CHR ''.'') s; fp = tl (dropWhile (\<lambda>c. c \<noteq> CHR ''.'') s)
      in of_nat (digits_value ip)
         + of_nat (digits_value fp) / 10 ^ length (filter is_digit fp))"

definition unsigned_part :: "string \<Rightarrow> string" where
  "unsigned_part s =
     (case s of c # cs \<Rightarrow> if c = CHR ''+'' \<or> c = CHR ''-'' then cs else s | [] \<Rightarrow> s)"

definition is_negative :: "string \<Rightarrow> bool" where
  "is_negative s = (case s of c # cs \<Rightarrow> c = CHR ''-'' | [] \<Rightarrow> False)"

definition is_floatnumber :: "string \<Rightarrow> bool" where
  "is_floatnumber s =
     (let m = takeWhile (\<lambda>c. c \<noteq> CHR ''e'') s; rest = dropWhile (\<lambda>c. c \<noteq> CHR ''e'') s
      in is_number m \<and> (rest = [] \<or> digitpart (unsigned_part (tl rest))))"

definition floatnumber_value :: "string \<Rightarrow> rat" where
  "floatnumber_value s =
     (let m = takeWhile (\<lambda>c. c \<noteq> CHR ''e'') s; rest = dropWhile (\<lambda>c. c \<noteq> CHR ''e'') s;
          e = digits_value (unsigned_part (tl rest))
      in if rest = [] then number_value m
         else if is_negative (tl rest) then number_value m / 10 ^ e
         else number_value m * 10 ^ e)"

definition py_float :: "(rat \<Rightarrow> py_float) \<Rightarrow> string \<Rightarrow> py_error + py_float" where
  "py_float round_binary64 s =
     (let body = unsigned_part s
      in if body = ''inf'' \<or> body = ''infinity''
         then Inr (if is_negative s then Neg_Inf else Pos_Inf)
         else if body = ''nan'' then Inr NaN
         else if is_floatnumber body
         then Inr (round_binary64
                     (if is_negative s then - floatnumber_value body else floatnumber_value body))
         else Inl ValueError)"

text \<open>
  \<^verbatim>\<open>int(x)\<close> of a float: truncation towards zero; OverflowError on an infinity,
  ValueError on a NaN.
\<close>

definition py_int :: "py_float \<Rightarrow> py_error + int" where
  "py_int x =
     (case x of
        Finite q \<Rightarrow> Inr (if 0 \<le> q then \<lfloor>q\<rfloor> else \<lceil>q\<rceil>)
      | Pos_Inf \<Rightarrow> Inl OverflowError
      | Neg_Inf \<Rightarrow> Inl OverflowError
      | NaN \<Rightarrow> Inl ValueError)"


section \<open>The session: zeroing, moving, streaming\<close>

text \<open>
  The only variable of the script that the main loop changes is \<^verbatim>\<open>zero_offset_um\<close>;
  it holds a Python integer or, after an assignment of \<^verbatim>\<open>None\<close>, \<open>None\<close>. What one
  pass of the main loop does to the outside is the list of its serial writes and console
  lines, in order.
\<close>

record session =
  zero_offset_um :: "int option"

definition initial_session :: session where
  "initial_session = \<lparr>zero_offset_um = Some 0\<rparr>"

datatype action = Write "byte list" | Print message

text \<open>
  How one pass of the main loop ends: \<^verbatim>\<open>continue\<close> (the prompt comes again),
  \<^verbatim>\<open>break\<close>, an exception that no handler of the script catches, or the
  KeyboardInterrupt that the outer \<^verbatim>\<open>except\<close> catches.
\<close>

datatype outcome = Prompt | Quit | Uncaught py_error | Interrupted

text \<open>
  \<^verbatim>\<open>
  elif user_input == 'z':
      print("Zeroing at current position...")
      # Send a no-op command just to trigger a fresh response
      client.socket.write(build_position_command(0))
      time.sleep(0.1)
      response = client.socket.read(19)
      if len(response) == 19:
          zero_offset_um = parse_motor_response_line(response)
          print(f"Zero set at {zero_offset_um} um")
      else:
          print("Failed to read position to set zero.")
      continue
  \<close>
  \<open>response\<close> is what the read returns: up to 19 bytes, fewer on a timeout.
\<close>

definition zero_branch :: "session \<Rightarrow> byte list \<Rightarrow> outcome \<times> session \<times> action list" where
  "zero_branch s response =
     (case build_position_command 0 of
        Inl e \<Rightarrow> (Uncaught e, s, [Print Zeroing])
      | Inr frame \<Rightarrow>
          if length response = 19
          then (case parse_motor_response_line (Some response) of
                  Inl e \<Rightarrow> (Uncaught e, s, [Print Zeroing, Write frame])
                | Inr (line, r) \<Rightarrow>
                    (Prompt, s\<lparr>zero_offset_um := r\<rparr>,
                     [Print Zeroing, Write frame, Print line, Print (Zero_Set r)]))
          else (Prompt, s, [Print Zeroing, Write frame, Print Zero_Failed]))"

text \<open>
  \<^verbatim>\<open>
  target_um = zero_offset_um + position_um
  full_request = build_position_command(target_um)
  \<close>
  The sum of \<^verbatim>\<open>None\<close> and an integer is a TypeError.
\<close>

definition resolve_target :: "session \<Rightarrow> int \<Rightarrow> py_error + (int \<times> byte list)" where
  "resolve_target s position_um =
     (case zero_offset_um s of
        None \<Rightarrow> Inl TypeError
      | Some z \<Rightarrow>
          (let target_um = z + position_um
           in case build_position_command target_um of
                Inl e \<Rightarrow> Inl e
              | Inr full_request \<Rightarrow> Inr (target_um, full_request)))"

text \<open>
  \<^verbatim>\<open>
  while True:
      client.socket.write(full_request)
      response = client.socket.read(19)
      parse_motor_response_line(response)
      time.sleep(0.3)
      if client.socket.in_waiting > 0:
          break
  \<close>
  The loop may run forever, so it is a partial function: \<open>None\<close> is a run that never
  leaves the loop. What the outside does to a pass of the loop is a \<open>cycle\<close>: the
  operator's interrupt arrives (\<open>Interrupt\<close>), or the read returns \<open>response\<close> and,
  after the sleep, the serial input buffer holds \<open>in_waiting\<close> bytes. The outside as a
  whole gives the cycle of every pass: \<open>env i\<close> is what happens in pass \<open>i\<close>, counted
  from 0. The interrupt is taken at the start of a pass; an interrupt at the prompt or in
  the zero branch, and the duration of the sleeps, are outside the model.
\<close>

datatype cycle = Interrupt | Reply "byte list" nat

datatype loop_exit = Break | Ctrl_C | Failed py_error

partial_function (option) streaming ::
    "byte list \<Rightarrow> (nat \<Rightarrow> cycle) \<Rightarrow> nat \<Rightarrow> action list
       \<Rightarrow> (loop_exit \<times> action list) option" where
  "streaming full_request env i tr =
     (case env i of
        Interrupt \<Rightarrow> Some (Ctrl_C, tr)
      | Reply response in_waiting \<Rightarrow>
          (case parse_motor_response_line (Some response) of
             Inl e \<Rightarrow> Some (Failed e, tr @ [Write full_request])
           | Inr (line, p) \<Rightarrow>
               if in_waiting > 0 then Some (Break, tr @ [Write full_request, Print line])
               else streaming full_request env (Suc i)
                      (tr @ [Write full_request, Print line])))"

declare streaming.simps [code]

text \<open>
  An outside that is given by its first cycles and one cycle that repeats for ever after.
\<close>

definition then_forever :: "cycle list \<Rightarrow> cycle \<Rightarrow> nat \<Rightarrow> cycle" where
  "then_forever cs c i = (if i < length cs then cs ! i else c)"

text \<open>
  What one pass of the streaming loop adds to the trace when the read returns
  \<open>response\<close>: the write of the request, then the line that the parser prints.
\<close>

definition pass_actions :: "byte list \<Rightarrow> byte list \<Rightarrow> action list" where
  "pass_actions full_request response =
     (case parse_motor_response_line (Some response) of
        Inl e \<Rightarrow> [Write full_request]
      | Inr (line, p) \<Rightarrow> [Write full_request, Print line])"

definition move_branch ::
    "session \<Rightarrow> int \<Rightarrow> (nat \<Rightarrow> cycle) \<Rightarrow> (outcome \<times> session \<times> action list) option" where
  "move_branch s position_um env =
     (case resolve_target s position_um of
        Inl e \<Rightarrow> Some (Uncaught e, s, [])
      | Inr (target_um, full_request) \<Rightarrow>
          (case streaming full_request env 0 [Print (Moving position_um target_um)] of
             None \<Rightarrow> None
           | Some (Break, tr) \<Rightarrow> Some (Prompt, s, tr)
           | Some (Ctrl_C, tr) \<Rightarrow> Some (Interrupted, s, tr @ [Print Streaming_Stopped])
           | Some (Failed e, tr) \<Rightarrow> Some (Uncaught e, s, tr)))"

text \<open>
  One pass of the main loop, from the line that the operator typed:
  \<^verbatim>\<open>
  user_input = input(...).strip().lower()
  if user_input == 'q': break
  elif user_input == 'z': ...; continue
  try:
      position_um = int(float(user_input))
  except ValueError:
      print("Invalid input. Enter a number, 'z' to zero, or 'q' to quit.")
      continue
  ...
  \<close>
  \<open>response\<close> is the reply to the probe of the zero branch, \<open>env\<close> the outside of the
  streaming loop.
\<close>

definition parse_position :: "(rat \<Rightarrow> py_float) \<Rightarrow> string \<Rightarrow> py_error + int" where
  "parse_position round_binary64 user_input =
     (case py_float round_binary64 user_input of Inl e \<Rightarrow> Inl e | Inr x \<Rightarrow> py_int x)"

definition handle_input ::
    "(rat \<Rightarrow> py_float) \<Rightarrow> session \<Rightarrow> string \<Rightarrow> byte list \<Rightarrow> (nat \<Rightarrow> cycle)
       \<Rightarrow> (outcome \<times> session \<times> action list) option" where
  "handle_input round_binary64 s line response env =
     (let user_input = py_lower (py_strip line)
      in if user_input = ''q'' then Some (Quit, s, [])
         else if user_input = ''z'' then Some (zero_branch s response)
         else (case parse_position round_binary64 user_input of
                 Inl e \<Rightarrow>
                   if e = ValueError then Some (Prompt, s, [Print Invalid_Input])
                   else Some (Uncaught e, s, [])
               | Inr position_um \<Rightarrow> move_branch s position_um env))"


section \<open>Properties of the conversions\<close>

lemma length_le_digits: "length (le_digits k n) = k"
  by (induction k arbitrary: n) simp_all

lemma from_bytes_big_snoc: "from_bytes_big (bs @ [b]) = from_bytes_big bs * 256 + uint b"
  by (simp add: from_bytes_big_def)

lemma from_bytes_big_le_digits:
  "from_bytes_big (rev (le_digits k n)) = n mod 2 ^ (8 * k)"
proof (induction k arbitrary: n)
  case 0
  then show ?case by (simp add: from_bytes_big_def)
next
  case (Suc k)
  have "n mod (256 * 2 ^ (8 * k)) = 256 * (n div 256 mod 2 ^ (8 * k)) + n mod 256"
    by (rule zmod_zmult2_eq) simp
  then show ?case
    by (simp add: from_bytes_big_snoc Suc uint_word_of_int power_add)
qed

lemma mod_shift_neg:
  fixes n m :: int
  assumes "n < 0" "0 \<le> n + m"
  shows "n mod m = n + m"
proof -
  have "(n + m) mod m = n + m"
    using assms by (intro mod_pos_pos_trivial) auto
  then show ?thesis by simp
qed

lemma from_bytes_big_signed_to_bytes:
  assumes "to_bytes_big_signed n len = Inr bs"
  shows "from_bytes_big_signed bs = n"
proof -
  define m :: int where "m = 2 ^ (8 * len)"
  from assms have r: "- m \<le> 2 * n" "2 * n < m" and bs: "bs = rev (le_digits len (n mod m))"
    by (auto simp: to_bytes_big_signed_def m_def split: if_splits)
  have l: "2 ^ (8 * length bs) = m" by (simp add: bs length_le_digits m_def)
  have "from_bytes_big bs = (n mod m) mod m"
    unfolding bs m_def by (rule from_bytes_big_le_digits)
  then have u: "from_bytes_big bs = n mod m" by simp
  show ?thesis
  proof (cases "n < 0")
    case True
    with r have "n mod m = n + m"
      by (intro mod_shift_neg) auto
    with True r show ?thesis by (simp add: from_bytes_big_signed_def u l)
  next
    case False
    with r have "n mod m = n" by simp
    with False r show ?thesis by (simp add: from_bytes_big_signed_def u l)
  qed
qed

lemma four: "(4::nat) = Suc (Suc (Suc (Suc 0)))" by simp

lemma uint_drop_bit_div: "uint (drop_bit k w) = uint w div 2 ^ k"
proof -
  have "uint (drop_bit k w) = drop_bit k (take_bit LENGTH('a) (uint w))"
    by (rule unsigned_drop_bit_eq)
  also have "take_bit LENGTH('a) (uint w) = uint w"
    by (simp add: take_bit_int_eq_self)
  finally show ?thesis
    by (simp add: drop_bit_eq_div)
qed

lemma div_256:
  "(n::int) div 256 div 256 = n div 65536"
  "(n::int) div 65536 div 256 = n div 16777216"
  by (simp_all add: div_mult2_eq [symmetric])

lemma le_digits_4: "rev (le_digits 4 (uint (w :: 32 word))) = be32 w"
  unfolding four
  by (simp add: be32_def word_uint_eq_iff uint_word_of_int unsigned_ucast_eq take_bit_eq_mod
      uint_drop_bit_div div_256)

lemma to_bytes_4:
  "- (2 ^ 31) \<le> p \<Longrightarrow> p < 2 ^ 31 \<Longrightarrow> to_bytes_big_signed p 4 = Inr (be32 (word_of_int p))"
  using le_digits_4 [of "word_of_int p"]
  by (simp add: to_bytes_big_signed_def uint_word_of_int)

lemma to_bytes_4_overflow:
  "p < - (2 ^ 31) \<or> 2 ^ 31 \<le> p \<Longrightarrow> to_bytes_big_signed p 4 = Inl OverflowError"
  by (auto simp add: to_bytes_big_signed_def)

lemma length_be32: "length (be32 w) = 4"
  by (simp add: be32_def)

section \<open>Properties of the checksum\<close>

lemma even_uint: "even (uint w) \<longleftrightarrow> even w"
  by (metis word_of_int_uint even_of_int_iff)

lemma take_bit_16_uint: "take_bit 16 (uint (w :: 16 word)) = uint w"
  using uint_bounded [of w] by (simp add: take_bit_int_eq_self)

lemma crc_shift_uint: "crc_shift (uint w) = uint (crc16_shift w)"
proof -
  have a: "uint w AND 1 \<noteq> 0 \<longleftrightarrow> bit w 0"
    by (simp add: and_one_eq bit_0 mod_2_eq_odd even_uint)
  show ?thesis
    unfolding crc_shift_def crc16_shift_def a
    by (simp add: uint_xor unsigned_drop_bit_eq take_bit_16_uint)
qed

lemma crc_rounds_uint: "crc_rounds k (uint w) = uint ((crc16_shift ^^ k) w)"
  by (induction k arbitrary: w) (simp_all add: crc_shift_uint funpow_swap1)

lemma uint_byte_take: "take_bit 16 (uint (b :: byte)) = uint b"
proof -
  have "uint b < 2 ^ 8" using uint_bounded [of b] by simp
  then have "uint b < 2 ^ 16" by simp
  then show ?thesis by (simp add: take_bit_int_eq_self)
qed

lemma crc_update_uint: "crc_update (uint w) b = uint (crc16_update w b)"
  unfolding crc_update_def crc16_update_def
  by (simp add: uint_xor unsigned_ucast_eq uint_byte_take flip: crc_rounds_uint)

lemma foldl_crc_uint: "foldl crc_update (uint w) data = uint (foldl crc16_update w data)"
  by (induction data arbitrary: w) (simp_all add: crc_update_uint)

lemma crc_accumulate_uint: "crc_accumulate data = uint (crc16_spec data)"
  using foldl_crc_uint [of "0xFFFF" data]
  by (simp add: crc_accumulate_def crc16_spec_def)

lemma le_digits_2: "le_digits 2 (uint (w :: 16 word)) = le16 w"
  by (simp add: numeral_2_eq_2 le16_def word_uint_eq_iff uint_word_of_int unsigned_ucast_eq
      take_bit_eq_mod uint_drop_bit_div)

lemma modbus_crc_le16: "modbus_crc data = Inr (le16 (crc16_spec data))"
proof -
  have "uint (crc16_spec data) < 2 ^ 16"
    using uint_bounded [of "crc16_spec data"] by simp
  then show ?thesis
    by (simp add: modbus_crc_def to_bytes_little_def crc_accumulate_uint le_digits_2)
qed


section \<open>Evaluation on concrete frames\<close>

lemma eight: "(8::nat) = Suc (Suc (Suc (Suc (Suc (Suc (Suc (Suc 0)))))))" by simp

lemma crc_update_unfold:
  "crc_update crc b =
     crc_shift (crc_shift (crc_shift (crc_shift (crc_shift (crc_shift (crc_shift (crc_shift
       (crc XOR uint b))))))))"
  unfolding crc_update_def eight by simp

lemma two: "(2::nat) = Suc (Suc 0)" by simp

lemma to_bytes_little_2:
  "0 \<le> n \<Longrightarrow> n < 65536 \<Longrightarrow>
     to_bytes_little n 2 = Inr [word_of_int (n mod 256), word_of_int (n div 256 mod 256)]"
  unfolding to_bytes_little_def two by simp

lemma to_bytes_big_signed_4:
  "- 2147483648 \<le> p \<Longrightarrow> p < 2147483648 \<Longrightarrow>
     to_bytes_big_signed p 4 =
       Inr [word_of_int (p mod 4294967296 div 16777216 mod 256),
            word_of_int (p mod 4294967296 div 65536 mod 256),
            word_of_int (p mod 4294967296 div 256 mod 256),
            word_of_int (p mod 4294967296 mod 256)]"
  unfolding to_bytes_big_signed_def four by (simp add: div_256)

lemmas eval_frame =
  build_position_command_def modbus_crc_def crc_accumulate_def crc_update_unfold crc_shift_def
  to_bytes_little_2 to_bytes_big_signed_4 from_bytes_big_signed_def from_bytes_big_def slice_def

lemma build_position_command_0:
  "build_position_command 0 = Inr [0x01, 0x64, 0x1E, 0, 0, 0, 0, 0xAB, 0xE6]"
  by (simp add: eval_frame)

section \<open>The claims on the codec\<close>

text \<open>
  Claim C4. \<^verbatim>\<open>modbus_crc\<close> is the Modbus CRC-16: on every byte sequence it returns,
  without raising, the two bytes of the 16-bit checksum of section 4.1 (accumulator
  \<open>0xFFFF\<close>, each byte XOR-ed into the low byte, eight shift-right rounds with
  \<open>0xA001\<close> XOR-ed in on a set low bit), low byte first. As a function it is
  deterministic; on \<open>[0x01, 0x64, 0x11]\<close> its value is \<open>CA CC\<close> (the checksum
  \<open>0xCCCA\<close>), and on the ASCII digits \<open>123456789\<close> it gives the check value
  \<open>0x4B37\<close> of the Modbus CRC-16.
\<close>

theorem modbus_crc_reference:
  "modbus_crc data = Inr (le16 (crc16_spec data))
   \<and> length (le16 (crc16_spec data)) = 2
   \<and> modbus_crc [0x01, 0x64, 0x11] = Inr [0xCA, 0xCC]
   \<and> modbus_crc [0x31, 0x32, 0x33, 0x34, 0x35, 0x36, 0x37, 0x38, 0x39] = Inr [0x37, 0x4B]"
proof (intro conjI)
  show "modbus_crc data = Inr (le16 (crc16_spec data))"
    by (rule modbus_crc_le16)
  show "length (le16 (crc16_spec data)) = 2"
    by (simp add: le16_def)
  show "modbus_crc [0x01, 0x64, 0x11] = Inr [0xCA, 0xCC]"
    by (simp add: eval_frame)
  show "modbus_crc [0x31, 0x32, 0x33, 0x34, 0x35, 0x36, 0x37, 0x38, 0x39] = Inr [0x37, 0x4B]"
    by (simp add: eval_frame)
qed

text \<open>
  Claim C8. For every \<open>position_um\<close> that fits in a signed 32-bit integer,
  \<^verbatim>\<open>build_position_command\<close> returns the 9-byte frame made of \<open>01 64 1E\<close>, the four
  bytes of the big-endian two's complement of \<open>position_um\<close>, and the checksum of
  these seven bytes, low byte first; reading bytes 3 to 6 of the frame back as a
  big-endian signed integer gives \<open>position_um\<close> again.
\<close>

theorem encode_move_roundtrip:
  assumes "- (2 ^ 31) \<le> position_um" and "position_um < 2 ^ 31"
  shows "\<exists>frame. build_position_command position_um = Inr frame
           \<and> frame = [0x01, 0x64, 0x1E] @ be32 (word_of_int position_um)
                      @ le16 (crc16_spec ([0x01, 0x64, 0x1E] @ be32 (word_of_int position_um)))
           \<and> length frame = 9
           \<and> from_bytes_big_signed (slice frame 3 7) = position_um"
proof -
  let ?p = "be32 (word_of_int position_um)"
  let ?frame = "[0x01, 0x64, 0x1E] @ ?p @ le16 (crc16_spec ([0x01, 0x64, 0x1E] @ ?p))"
  have enc: "to_bytes_big_signed position_um 4 = Inr ?p"
    using assms by (rule to_bytes_4)
  have b: "build_position_command position_um = Inr ?frame"
    by (simp add: build_position_command_def enc modbus_crc_le16 Let_def)
  have "slice ?frame 3 7 = ?p"
    by (simp add: slice_def length_be32)
  then have r: "from_bytes_big_signed (slice ?frame 3 7) = position_um"
    using from_bytes_big_signed_to_bytes [OF enc] by simp
  have l: "length ?frame = 9"
    by (simp add: length_be32 le16_def)
  from b r l show ?thesis by blast
qed

theorem encode_move_roundtrip_witness:
  "build_position_command (- 2000000) = Inr [0x01, 0x64, 0x1E, 0xFF, 0xE1, 0x7B, 0x80, 0xE8, 0x94]
   \<and> from_bytes_big_signed (slice [0x01, 0x64, 0x1E, 0xFF, 0xE1, 0x7B, 0x80, 0xE8, 0x94] 3 7)
       = - 2000000"
proof -
  have v: "build_position_command (- 2000000)
             = Inr [0x01, 0x64, 0x1E, 0xFF, 0xE1, 0x7B, 0x80, 0xE8, 0x94]"
    by (simp add: eval_frame)
  from encode_move_roundtrip [of "- 2000000"]
  obtain frame where "build_position_command (- 2000000) = Inr frame"
    and "from_bytes_big_signed (slice frame 3 7) = - 2000000"
    by auto
  with v show ?thesis by simp
qed

text \<open>
  Claim C10. \<^verbatim>\<open>build_position_command\<close> raises OverflowError on every integer outside
  \<open>[- 2 ^ 31, 2 ^ 31 - 1]\<close>, and on every integer inside that range it returns a frame
  of 9 bytes.
\<close>

theorem encode_move_total_on_int32:
  "(position_um < - (2 ^ 31) \<or> 2 ^ 31 \<le> position_um
      \<longrightarrow> build_position_command position_um = Inl OverflowError)
   \<and> (- (2 ^ 31) \<le> position_um \<and> position_um < 2 ^ 31
      \<longrightarrow> (\<exists>frame. build_position_command position_um = Inr frame \<and> length frame = 9))"
proof (intro conjI impI)
  assume "position_um < - (2 ^ 31) \<or> 2 ^ 31 \<le> position_um"
  then have "to_bytes_big_signed position_um 4 = Inl OverflowError"
    by (rule to_bytes_4_overflow)
  then show "build_position_command position_um = Inl OverflowError"
    by (simp add: build_position_command_def)
next
  assume "- (2 ^ 31) \<le> position_um \<and> position_um < 2 ^ 31"
  then have enc: "to_bytes_big_signed position_um 4 = Inr (be32 (word_of_int position_um))"
    by (simp add: to_bytes_4)
  show "\<exists>frame. build_position_command position_um = Inr frame \<and> length frame = 9"
    by (simp add: build_position_command_def enc modbus_crc_le16 length_be32 le16_def Let_def)
qed

theorem encode_move_total_on_int32_witness:
  "build_position_command (2 ^ 31) = Inl OverflowError
   \<and> build_position_command (- (2 ^ 31) - 1) = Inl OverflowError
   \<and> (\<exists>frame. build_position_command (2 ^ 31 - 1) = Inr frame \<and> length frame = 9)
   \<and> (\<exists>frame. build_position_command (- (2 ^ 31)) = Inr frame \<and> length frame = 9)"
  using encode_move_total_on_int32 [of "2 ^ 31"]
    encode_move_total_on_int32 [of "- (2 ^ 31) - 1"]
    encode_move_total_on_int32 [of "2 ^ 31 - 1"]
    encode_move_total_on_int32 [of "- (2 ^ 31)"]
  by simp


section \<open>Properties of the response parser\<close>

lemma drop_nth_Cons: "i < length xs \<Longrightarrow> drop i xs = xs ! i # drop (Suc i) xs"
  by (simp add: Cons_nth_drop_Suc)

lemma slice_4:
  assumes "i + 4 \<le> length xs"
  shows "slice xs i (i + 4) = [xs ! i, xs ! (i + 1), xs ! (i + 2), xs ! (i + 3)]"
proof -
  have "drop i xs = xs ! i # xs ! Suc i # xs ! Suc (Suc i) # xs ! Suc (Suc (Suc i))
          # drop (Suc (Suc (Suc (Suc i)))) xs"
    using assms by (simp add: drop_nth_Cons)
  then have "take (Suc (Suc (Suc (Suc 0)))) (drop i xs)
          = [xs ! i, xs ! Suc i, xs ! Suc (Suc i), xs ! Suc (Suc (Suc i))]"
    by simp
  then show ?thesis
    by (simp add: slice_def eval_nat_numeral)
qed

lemma slice_2:
  assumes "i + 2 \<le> length xs"
  shows "slice xs i (i + 2) = [xs ! i, xs ! (i + 1)]"
proof -
  have "drop i xs = xs ! i # xs ! Suc i # drop (Suc (Suc i)) xs"
    using assms by (simp add: drop_nth_Cons)
  then have "take (Suc (Suc 0)) (drop i xs) = [xs ! i, xs ! Suc i]"
    by simp
  then show ?thesis
    by (simp add: slice_def eval_nat_numeral)
qed

lemma response_slices:
  assumes "length r = 19"
  shows "slice r 2 6 = [r ! 2, r ! 3, r ! 4, r ! 5]"
    and "slice r 6 10 = [r ! 6, r ! 7, r ! 8, r ! 9]"
    and "slice r 10 12 = [r ! 10, r ! 11]"
    and "slice r 13 15 = [r ! 13, r ! 14]"
    and "slice r 15 17 = [r ! 15, r ! 16]"
  using assms slice_4 [of 2 r] slice_4 [of 6 r] slice_2 [of 10 r] slice_2 [of 13 r]
    slice_2 [of 15 r]
  by simp_all

lemma sint_of_unsigned:
  assumes "0 \<le> n" "n < 2 ^ 32"
  shows "sint (word_of_int n :: 32 word) = (if 2 ^ 32 \<le> 2 * n then n - 2 ^ 32 else n)"
proof -
  have "sint (word_of_int n :: 32 word) = (n + 2 ^ 31) mod 2 ^ 32 - 2 ^ 31"
    by (simp add: signed_of_int signed_take_bit_eq_take_bit_shift take_bit_eq_mod)
  also have "\<dots> = (if 2 ^ 32 \<le> 2 * n then n - 2 ^ 32 else n)"
  proof (cases "2 ^ 32 \<le> 2 * n")
    case True
    define k where "k = n + 2 ^ 31 - 2 ^ 32"
    have "k mod 2 ^ 32 = k"
      using True assms by (intro mod_pos_pos_trivial) (auto simp: k_def)
    then have "(k + 2 ^ 32) mod 2 ^ 32 = k"
      by simp
    then have "(n + 2 ^ 31) mod 2 ^ 32 = n + 2 ^ 31 - 2 ^ 32"
      by (simp add: k_def add.commute)
    with True show ?thesis by simp
  next
    case False
    with assms have "(n + 2 ^ 31) mod 2 ^ 32 = n + 2 ^ 31" by simp
    with False show ?thesis by simp
  qed
  finally show ?thesis .
qed

lemma uint_byte_less: "uint (b :: byte) < 256"
  using uint_bounded [of b] by simp

lemma from_bytes_big_signed_4: "from_bytes_big_signed [a, b, c, d] = s32_be a b c d"
proof -
  let ?n = "uint a * 2 ^ 24 + uint b * 2 ^ 16 + uint c * 2 ^ 8 + uint d"
  have f: "from_bytes_big [a, b, c, d] = ?n" by (simp add: from_bytes_big_def)
  have "0 \<le> ?n" by simp
  moreover have "?n < 2 ^ 32"
    using uint_byte_less [of a] uint_byte_less [of b] uint_byte_less [of c]
      uint_byte_less [of d] by simp
  ultimately show ?thesis
    unfolding s32_be_def
    by (simp only: sint_of_unsigned) (simp add: from_bytes_big_signed_def f)
qed

lemma from_bytes_big_2: "from_bytes_big [a, b] = u16_be a b"
proof -
  define n where "n = uint a * 2 ^ 8 + uint b"
  have "0 \<le> n" "n < 2 ^ 16"
    using uint_byte_less [of a] uint_byte_less [of b] by (simp_all add: n_def)
  then have "n mod 2 ^ 16 = n"
    by (intro mod_pos_pos_trivial)
  moreover have "uint (word_of_int n :: 16 word) = n mod 2 ^ 16"
    by (simp add: uint_word_of_int)
  moreover have "from_bytes_big [a, b] = n"
    by (simp add: from_bytes_big_def n_def)
  ultimately show ?thesis
    unfolding u16_be_def n_def [symmetric] by simp
qed

lemma parse_valid:
  assumes "length r = 19" and "r ! 1 = 0x64"
  shows "parse_motor_response_line (Some r) =
     Inr (Telemetry_Line
            \<lparr>pos = s32_be (r ! 2) (r ! 3) (r ! 4) (r ! 5),
             force = s32_be (r ! 6) (r ! 7) (r ! 8) (r ! 9),
             power = u16_be (r ! 10) (r ! 11),
             temp = uint (r ! 12),
             voltage = u16_be (r ! 13) (r ! 14),
             errors = u16_be (r ! 15) (r ! 16)\<rparr>,
          Some (s32_be (r ! 2) (r ! 3) (r ! 4) (r ! 5)))"
  using assms
  by (simp add: parse_motor_response_line_def subscript_def response_slices
      from_bytes_big_signed_4 from_bytes_big_2)

lemma parse_bad_length:
  "length r \<noteq> 19 \<Longrightarrow> parse_motor_response_line (Some r) = Inr (Invalid_Response, None)"
  by (simp add: parse_motor_response_line_def)

lemma parse_bad_function:
  "length r = 19 \<Longrightarrow> r ! 1 \<noteq> 0x64 \<Longrightarrow>
     parse_motor_response_line (Some r) = Inr (Unexpected_Function (r ! 1), None)"
  by (simp add: parse_motor_response_line_def subscript_def)

lemma parse_None: "parse_motor_response_line None = Inr (Invalid_Response, None)"
  by (simp add: parse_motor_response_line_def)


text \<open>The parser returns on every input.\<close>

lemma parse_Inr: "\<exists>line p. parse_motor_response_line x = Inr (line, p)"
proof (cases x)
  case None
  then show ?thesis by (simp add: parse_None)
next
  case (Some bs)
  consider "length bs \<noteq> 19" | "length bs = 19" "bs ! 1 \<noteq> 0x64"
    | "length bs = 19" "bs ! 1 = 0x64"
    by blast
  then show ?thesis
  proof cases
    case 1
    then show ?thesis by (simp add: Some parse_bad_length)
  next
    case 2
    then show ?thesis by (simp add: Some parse_bad_function)
  next
    case 3
    then show ?thesis by (simp add: Some parse_valid)
  qed
qed

lemmas eval_fields =
  from_bytes_big_signed_4 [symmetric] from_bytes_big_2 [symmetric]
  from_bytes_big_signed_def from_bytes_big_def

text \<open>
  Claim C5. The claim says that the parser returns a bad-length error exactly when the
  length is not 19 and a different, bad-function error exactly when the length is 19 and
  byte 1 is not \<open>0x64\<close>. What the parser returns is \<^verbatim>\<open>None\<close> in both cases: a
  response of 3 bytes and a response of 19 bytes with function code \<open>0x65\<close> give the
  same returned value.
\<close>

theorem decode_response_errors_share_return_value:
  "map_sum id snd (parse_motor_response_line (Some [0x01, 0x64, 0x00])) = Inr None
   \<and> map_sum id snd (parse_motor_response_line
        (Some [0x01, 0x65, 0, 0, 0x27, 0x10, 0, 0, 0, 0, 0, 0, 0, 0, 0, 0, 0, 0, 0])) = Inr None
   \<and> length [0x01, 0x65, 0, 0, 0x27, 0x10, 0, 0, 0, 0, 0, 0, 0, 0, 0, 0, 0, 0, 0 :: byte] = 19"
  by (simp add: parse_bad_length parse_bad_function)

text \<open>
  Claim C5, amended. \<^verbatim>\<open>parse_motor_response_line\<close> never raises, whatever it is given.
  Its returned value does not tell the two errors apart: it returns \<^verbatim>\<open>None\<close> exactly when
  the length of the input is not 19 or byte 1 is not \<open>0x64\<close>, and otherwise it returns
  the decoded position alone. The two errors differ in the printed line only: the
  invalid-length line is printed exactly when the length is not 19, the
  unexpected-function line exactly when the length is 19 and byte 1 is not \<open>0x64\<close>, and
  the telemetry line on every other input.
\<close>

theorem decode_response_total:
  "(\<forall>e. parse_motor_response_line response \<noteq> Inl e)
   \<and> parse_motor_response_line None = Inr (Invalid_Response, None)
   \<and> (map_sum id snd (parse_motor_response_line (Some r)) = Inr None)
       = (length r \<noteq> 19 \<or> r ! 1 \<noteq> 0x64)
   \<and> (map_sum id snd (parse_motor_response_line (Some r))
         = Inr (Some (s32_be (r ! 2) (r ! 3) (r ! 4) (r ! 5))))
       = (length r = 19 \<and> r ! 1 = 0x64)
   \<and> (parse_motor_response_line (Some r) = Inr (Invalid_Response, None)) = (length r \<noteq> 19)
   \<and> (\<exists>fc. parse_motor_response_line (Some r) = Inr (Unexpected_Function fc, None))
       = (length r = 19 \<and> r ! 1 \<noteq> 0x64)
   \<and> (\<exists>t. parse_motor_response_line (Some r) = Inr (Telemetry_Line t, Some (pos t)))
       = (length r = 19 \<and> r ! 1 = 0x64)"
proof -
  have total: "parse_motor_response_line x \<noteq> Inl e" for x e
    using parse_Inr [of x] by auto
  consider "length r \<noteq> 19" | "length r = 19" "r ! 1 \<noteq> 0x64" | "length r = 19" "r ! 1 = 0x64"
    by blast
  then have "(map_sum id snd (parse_motor_response_line (Some r)) = Inr None)
        = (length r \<noteq> 19 \<or> r ! 1 \<noteq> 0x64)
     \<and> (map_sum id snd (parse_motor_response_line (Some r))
         = Inr (Some (s32_be (r ! 2) (r ! 3) (r ! 4) (r ! 5))))
        = (length r = 19 \<and> r ! 1 = 0x64)
     \<and> (parse_motor_response_line (Some r) = Inr (Invalid_Response, None))
        = (length r \<noteq> 19)
     \<and> (\<exists>fc. parse_motor_response_line (Some r) = Inr (Unexpected_Function fc, None))
        = (length r = 19 \<and> r ! 1 \<noteq> 0x64)
     \<and> (\<exists>t. parse_motor_response_line (Some r) = Inr (Telemetry_Line t, Some (pos t)))
        = (length r = 19 \<and> r ! 1 = 0x64)"
  proof cases
    case 1
    then show ?thesis by (simp add: parse_bad_length)
  next
    case 2
    then show ?thesis by (simp add: parse_bad_function)
  next
    case 3
    then show ?thesis by (simp add: parse_valid)
  qed
  with total parse_None show ?thesis by blast
qed

theorem decode_response_total_witness:
  "parse_motor_response_line (Some [0x01, 0x64, 0x00]) = Inr (Invalid_Response, None)
   \<and> (\<exists>fc. parse_motor_response_line
             (Some [0x01, 0x65, 0, 0, 0x27, 0x10, 0, 0, 0, 0, 0, 0, 0, 0, 0, 0, 0, 0, 0])
           = Inr (Unexpected_Function fc, None))
   \<and> map_sum id snd (parse_motor_response_line
        (Some [0x01, 0x65, 0, 0, 0x27, 0x10, 0, 0, 0, 0, 0, 0, 0, 0, 0, 0, 0, 0, 0])) = Inr None
   \<and> map_sum id snd (parse_motor_response_line
        (Some [0x01, 0x64, 0, 0, 0x27, 0x10, 0, 0, 0, 0, 0, 0, 0, 0, 0, 0, 0, 0, 0]))
      = Inr (Some 10000)"
  using decode_response_total [of None "[0x01, 0x64, 0x00]"]
    decode_response_total
      [of None "[0x01, 0x65, 0, 0, 0x27, 0x10, 0, 0, 0, 0, 0, 0, 0, 0, 0, 0, 0, 0, 0]"]
    decode_response_total
      [of None "[0x01, 0x64, 0, 0, 0x27, 0x10, 0, 0, 0, 0, 0, 0, 0, 0, 0, 0, 0, 0, 0]"]
  by (simp add: eval_fields)

text \<open>
  Claim C7. On every frame of 19 bytes whose byte 1 is \<open>0x64\<close> the parser reads the
  fields at the offsets of section 6: the position from bytes 2 to 5 and the force from
  bytes 6 to 9 as signed big-endian 32-bit values, the power from bytes 10 and 11, the
  voltage from bytes 13 and 14 and the error bitmap from bytes 15 and 16 as unsigned
  big-endian 16-bit values, the temperature as the unsigned byte 12; the position is what
  it returns. When the position bytes are \<open>00 00 27 10\<close> the position is 10000.
\<close>

theorem decode_response_fields:
  assumes "length r = 19" and "r ! 1 = 0x64"
  shows "parse_motor_response_line (Some r) =
           Inr (Telemetry_Line
                  \<lparr>pos = s32_be (r ! 2) (r ! 3) (r ! 4) (r ! 5),
                   force = s32_be (r ! 6) (r ! 7) (r ! 8) (r ! 9),
                   power = u16_be (r ! 10) (r ! 11),
                   temp = uint (r ! 12),
                   voltage = u16_be (r ! 13) (r ! 14),
                   errors = u16_be (r ! 15) (r ! 16)\<rparr>,
                Some (s32_be (r ! 2) (r ! 3) (r ! 4) (r ! 5)))
         \<and> (r ! 2 = 0x00 \<and> r ! 3 = 0x00 \<and> r ! 4 = 0x27 \<and> r ! 5 = 0x10
              \<longrightarrow> s32_be (r ! 2) (r ! 3) (r ! 4) (r ! 5) = 10000)"
proof
  show "parse_motor_response_line (Some r) =
           Inr (Telemetry_Line
                  \<lparr>pos = s32_be (r ! 2) (r ! 3) (r ! 4) (r ! 5),
                   force = s32_be (r ! 6) (r ! 7) (r ! 8) (r ! 9),
                   power = u16_be (r ! 10) (r ! 11),
                   temp = uint (r ! 12),
                   voltage = u16_be (r ! 13) (r ! 14),
                   errors = u16_be (r ! 15) (r ! 16)\<rparr>,
                Some (s32_be (r ! 2) (r ! 3) (r ! 4) (r ! 5)))"
    using assms by (rule parse_valid)
  have "s32_be 0x00 0x00 0x27 0x10 = 10000"
    by (simp add: eval_fields)
  then show "r ! 2 = 0x00 \<and> r ! 3 = 0x00 \<and> r ! 4 = 0x27 \<and> r ! 5 = 0x10
      \<longrightarrow> s32_be (r ! 2) (r ! 3) (r ! 4) (r ! 5) = 10000"
    by simp
qed

theorem decode_response_fields_witness:
  "parse_motor_response_line
     (Some [0x01, 0x64, 0x00, 0x00, 0x27, 0x10, 0xFF, 0xFF, 0xFF, 0xFE, 0x00, 0x05, 0x1E,
            0x5D, 0xC0, 0x00, 0x01, 0x12, 0x34])
   = Inr (Telemetry_Line
            \<lparr>pos = 10000, force = - 2, power = 5, temp = 30, voltage = 24000, errors = 1\<rparr>,
          Some 10000)"
  using decode_response_fields
    [of "[0x01, 0x64, 0x00, 0x00, 0x27, 0x10, 0xFF, 0xFF, 0xFF, 0xFE, 0x00, 0x05, 0x1E,
          0x5D, 0xC0, 0x00, 0x01, 0x12, 0x34]"]
  by (simp add: eval_fields)


section \<open>Properties of the session\<close>

lemma zero_short_read:
  "length response \<noteq> 19 \<Longrightarrow>
     zero_branch s response =
       (Prompt, s, [Print Zeroing, Write [0x01, 0x64, 0x1E, 0, 0, 0, 0, 0xAB, 0xE6],
                    Print Zero_Failed])"
  by (simp add: zero_branch_def build_position_command_0)

lemma zero_valid:
  "length response = 19 \<Longrightarrow> response ! 1 = 0x64 \<Longrightarrow>
     zero_branch s response =
       (Prompt,
        s\<lparr>zero_offset_um :=
             Some (s32_be (response ! 2) (response ! 3) (response ! 4) (response ! 5))\<rparr>,
        [Print Zeroing, Write [0x01, 0x64, 0x1E, 0, 0, 0, 0, 0xAB, 0xE6],
         Print (Telemetry_Line
            \<lparr>pos = s32_be (response ! 2) (response ! 3) (response ! 4) (response ! 5),
             force = s32_be (response ! 6) (response ! 7) (response ! 8) (response ! 9),
             power = u16_be (response ! 10) (response ! 11),
             temp = uint (response ! 12),
             voltage = u16_be (response ! 13) (response ! 14),
             errors = u16_be (response ! 15) (response ! 16)\<rparr>),
         Print (Zero_Set
            (Some (s32_be (response ! 2) (response ! 3) (response ! 4) (response ! 5))))])"
  by (simp add: zero_branch_def build_position_command_0 parse_valid)

lemma zero_bad_function:
  "length response = 19 \<Longrightarrow> response ! 1 \<noteq> 0x64 \<Longrightarrow>
     zero_branch s response =
       (Prompt, s\<lparr>zero_offset_um := None\<rparr>,
        [Print Zeroing, Write [0x01, 0x64, 0x1E, 0, 0, 0, 0, 0xAB, 0xE6],
         Print (Unexpected_Function (response ! 1)), Print (Zero_Set None)])"
  by (simp add: zero_branch_def build_position_command_0 parse_bad_function)

lemma resolve_target_None:
  "zero_offset_um s = None \<Longrightarrow> resolve_target s position_um = Inl TypeError"
  by (simp add: resolve_target_def)

lemma resolve_target_Some:
  "zero_offset_um s = Some z \<Longrightarrow>
     resolve_target s position_um =
       (case build_position_command (z + position_um) of
          Inl e \<Rightarrow> Inl e
        | Inr frame \<Rightarrow> Inr (z + position_um, frame))"
  by (simp add: resolve_target_def Let_def)

text \<open>
  Claim C1. The claim says that every outcome of the zero operation other than a
  successful decode leaves \<^verbatim>\<open>zero_offset_um\<close> as it was. The script does so on a short
  or absent response, but not on a response of 19 bytes with a wrong function code: it
  assigns the \<^verbatim>\<open>None\<close> that the parser returns. Here the offset is 0 before, the response
  has function code \<open>0x65\<close>, and afterwards the offset is \<^verbatim>\<open>None\<close>; the next move raises
  a TypeError that nothing catches.
\<close>

theorem zero_wrong_function_code_clobbers_offset:
  "zero_branch initial_session
     [0x01, 0x65, 0, 0, 0x27, 0x10, 0, 0, 0, 0, 0, 0, 0, 0, 0, 0, 0, 0, 0]
   = (Prompt, \<lparr>zero_offset_um = None\<rparr>,
      [Print Zeroing, Write [0x01, 0x64, 0x1E, 0, 0, 0, 0, 0xAB, 0xE6],
       Print (Unexpected_Function 0x65), Print (Zero_Set None)])
   \<and> zero_offset_um initial_session = Some 0
   \<and> move_branch \<lparr>zero_offset_um = None\<rparr> 100 env
       = Some (Uncaught TypeError, \<lparr>zero_offset_um = None\<rparr>, [])"
  by (simp add: zero_bad_function initial_session_def move_branch_def resolve_target_None)

text \<open>
  Claim C2. The claim says that the zero operation sends a move command whose target is
  the current absolute position. The script sends \<^verbatim>\<open>build_position_command(0)\<close>: whatever
  the session state and the response, the first frame written is the move frame whose
  position field is 0.
\<close>

theorem zero_probe_targets_zero:
  "(\<exists>rest. snd (snd (zero_branch s response))
             = Print Zeroing # Write [0x01, 0x64, 0x1E, 0, 0, 0, 0, 0xAB, 0xE6] # rest)
   \<and> build_position_command 0 = Inr [0x01, 0x64, 0x1E, 0, 0, 0, 0, 0xAB, 0xE6]
   \<and> from_bytes_big_signed (slice [0x01, 0x64, 0x1E, 0, 0, 0, 0, 0xAB, 0xE6] 3 7) = 0"
proof (intro conjI)
  consider "length response \<noteq> 19" | "length response = 19" "response ! 1 \<noteq> 0x64"
    | "length response = 19" "response ! 1 = 0x64"
    by blast
  then show "\<exists>rest. snd (snd (zero_branch s response))
             = Print Zeroing # Write [0x01, 0x64, 0x1E, 0, 0, 0, 0, 0xAB, 0xE6] # rest"
  proof cases
    case 1
    then show ?thesis by (simp add: zero_short_read)
  next
    case 2
    then show ?thesis by (simp add: zero_bad_function)
  next
    case 3
    then show ?thesis by (simp add: zero_valid)
  qed
  show "build_position_command 0 = Inr [0x01, 0x64, 0x1E, 0, 0, 0, 0, 0xAB, 0xE6]"
    by (rule build_position_command_0)
  show "from_bytes_big_signed (slice [0x01, 0x64, 0x1E, 0, 0, 0, 0, 0xAB, 0xE6] 3 7) = 0"
    by (simp add: eval_frame)
qed


section \<open>Properties of the streaming loop\<close>

lemma streaming_Interrupt:
  "env i = Interrupt \<Longrightarrow> streaming f env i tr = Some (Ctrl_C, tr)"
  by (subst streaming.simps) simp



text \<open>A run that leaves the loop has met an interrupt or a non-empty input buffer.\<close>

lemma streaming_Some_exit:
  assumes "streaming f env i tr = Some y"
  shows "\<exists>j\<ge>i. \<not> (\<exists>response. env j = Reply response 0)"
  using assms
proof (induction rule: streaming.raw_induct [rotated 1, consumes 1])
  case (1 streaming' f env i tr y)
  show ?case
  proof (cases "env i")
    case Interrupt
    then show ?thesis by (metis cycle.distinct(1) le_refl)
  next
    case (Reply response w)
    obtain line p where p: "parse_motor_response_line (Some response) = Inr (line, p)"
      using parse_Inr by blast
    show ?thesis
    proof (cases "0 < w")
      case True
      with Reply show ?thesis by (metis cycle.inject le_refl less_numeral_extra(3))
    next
      case False
      with 1(2) Reply p
      have "streaming' f env (Suc i) (tr @ [Write f, Print line]) = Some y"
        by simp
      from 1(1) [OF this] obtain j where "Suc i \<le> j" "\<not> (\<exists>response. env j = Reply response 0)"
        by blast
      then show ?thesis by (metis Suc_leD)
    qed
  qed
qed


text \<open>What a run that leaves the loop has added to the trace: writes of the one request.\<close>

lemma streaming_trace:
  assumes "streaming f env i tr = Some y"
  shows "\<exists>ext. snd y = tr @ ext \<and> (\<forall>g. Write g \<in> set ext \<longrightarrow> g = f)"
  using assms
proof (induction rule: streaming.raw_induct [rotated 1, consumes 1])
  case (1 streaming' f env i tr y)
  show ?case
  proof (cases "env i")
    case Interrupt
    with 1(2) have "snd y = tr @ []" by auto
    then show ?thesis by (intro exI [of _ "[]"]) simp
  next
    case (Reply response w)
    obtain line p where p: "parse_motor_response_line (Some response) = Inr (line, p)"
      using parse_Inr by blast
    show ?thesis
    proof (cases "0 < w")
      case True
      with 1(2) Reply p have "snd y = tr @ [Write f, Print line]"
        by auto
      then show ?thesis by simp
    next
      case False
      with 1(2) Reply p
      have "streaming' f env (Suc i) (tr @ [Write f, Print line]) = Some y"
        by simp
      from 1(1) [OF this] obtain ext
        where "snd y = (tr @ [Write f, Print line]) @ ext" "\<forall>g. Write g \<in> set ext \<longrightarrow> g = f"
        by blast
      then have "snd y = tr @ ([Write f, Print line] @ ext)
          \<and> (\<forall>g. Write g \<in> set ([Write f, Print line] @ ext) \<longrightarrow> g = f)"
        by simp
      then show ?thesis by blast
    qed
  qed
qed

text \<open>One pass writes the request and prints one line.\<close>

lemma pass_actions_line:
  "\<exists>line p. parse_motor_response_line (Some response) = Inr (line, p)
     \<and> pass_actions f response = [Write f, Print line]"
proof -
  obtain line p where "parse_motor_response_line (Some response) = Inr (line, p)"
    using parse_Inr by blast
  then show ?thesis by (simp add: pass_actions_def)
qed

lemma streaming_Reply_exact:
  assumes "env i = Reply response w"
  shows "streaming f env i tr =
           (if 0 < w then Some (Break, tr @ pass_actions f response)
            else streaming f env (Suc i) (tr @ pass_actions f response))"
proof -
  obtain line p where "parse_motor_response_line (Some response) = Inr (line, p)"
    using parse_Inr by blast
  with assms show ?thesis
    by (subst streaming.simps) (simp add: pass_actions_def)
qed

text \<open>The exact trace of a run of passes that all find the input buffer empty.\<close>

lemma streaming_run:
  assumes "\<forall>j<length rs. env (i + j) = Reply (rs ! j) 0"
  shows "streaming f env i tr =
           streaming f env (i + length rs) (tr @ concat (map (pass_actions f) rs))"
  using assms
proof (induction rs arbitrary: i tr)
  case Nil
  show ?case by simp
next
  case (Cons r rs)
  from Cons.prems have "env (i + 0) = Reply ((r # rs) ! 0) 0"
    by blast
  then have "env i = Reply r 0"
    by simp
  then have step: "streaming f env i tr = streaming f env (Suc i) (tr @ pass_actions f r)"
    by (simp add: streaming_Reply_exact)
  have "\<forall>j<length rs. env (Suc i + j) = Reply (rs ! j) 0"
  proof (intro allI impI)
    fix j
    assume "j < length rs"
    then have "Suc j < length (r # rs)" by simp
    with Cons.prems have "env (i + Suc j) = Reply ((r # rs) ! Suc j) 0"
      by blast
    then show "env (Suc i + j) = Reply (rs ! j) 0" by simp
  qed
  from Cons.IH [OF this, of "tr @ pass_actions f r"] step show ?case
    by simp
qed

lemma streaming_run_break:
  assumes "\<forall>j<length rs. env j = Reply (rs ! j) 0"
    and "env (length rs) = Reply r w" and "0 < w"
  shows "streaming f env 0 tr = Some (Break, tr @ concat (map (pass_actions f) (rs @ [r])))"
proof -
  from assms(1) have "\<forall>j<length rs. env (0 + j) = Reply (rs ! j) 0"
    by simp
  from streaming_run [OF this]
  have "streaming f env 0 tr =
      streaming f env (length rs) (tr @ concat (map (pass_actions f) rs))"
    by simp
  also from assms(2,3) have "\<dots> = Some (Break, (tr @ concat (map (pass_actions f) rs))
      @ pass_actions f r)"
    by (simp add: streaming_Reply_exact)
  finally show ?thesis by simp
qed

lemma streaming_run_interrupt:
  assumes "\<forall>j<length rs. env j = Reply (rs ! j) 0"
    and "env (length rs) = Interrupt"
  shows "streaming f env 0 tr = Some (Ctrl_C, tr @ concat (map (pass_actions f) rs))"
proof -
  from assms(1) have "\<forall>j<length rs. env (0 + j) = Reply (rs ! j) 0"
    by simp
  from streaming_run [OF this]
  have "streaming f env 0 tr =
      streaming f env (length rs) (tr @ concat (map (pass_actions f) rs))"
    by simp
  also from assms(2) have "\<dots> = Some (Ctrl_C, tr @ concat (map (pass_actions f) rs))"
    by (rule streaming_Interrupt)
  finally show ?thesis .
qed

lemma streaming_forever:
  assumes "\<forall>j. \<exists>response. env j = Reply response 0"
  shows "streaming f env i tr = None"
proof (cases "streaming f env i tr")
  case None
  then show ?thesis .
next
  case (Some y)
  from streaming_Some_exit [OF Some] assms show ?thesis by blast
qed

lemma build_position_command_Inr:
  assumes "build_position_command p = Inr frame"
  shows "from_bytes_big_signed (slice frame 3 7) = p"
proof -
  from assms obtain bs where bs: "to_bytes_big_signed p 4 = Inr bs"
    by (cases "to_bytes_big_signed p 4") (simp_all add: build_position_command_def)
  then have l: "length bs = 4"
    by (auto simp: to_bytes_big_signed_def length_le_digits split: if_splits)
  from assms bs have "frame = [0x01, 0x64, 0x1E] @ bs @ le16 (crc16_spec ([0x01, 0x64, 0x1E] @ bs))"
    by (simp add: build_position_command_def modbus_crc_le16 Let_def)
  then have "slice frame 3 7 = bs"
    using l by (simp add: slice_def)
  with from_bytes_big_signed_to_bytes [OF bs] show ?thesis by simp
qed

section \<open>The claims on the session\<close>




text \<open>
  Claim C6. In every session state whose \<^verbatim>\<open>zero_offset_um\<close> is an integer \<open>z\<close>, the
  absolute target of a move by \<open>relative_um\<close> is \<open>z + relative_um\<close>: that is the target
  the script computes and prints, the position field of the request encodes it, every
  frame that the streaming loop writes is the request for it, and the move leaves the
  session state as it was. The whole run of the move is determined: when the target does
  not fit 32 bits the move raises before anything is printed or written; otherwise it
  prints the target \<open>z + relative_um\<close> and then, on every pass, writes the request for
  \<open>z + relative_um\<close> and prints the line of the response, until a pass finds the input
  buffer not empty (back to the prompt) or the operator interrupts (the stop line is
  printed); when neither ever happens the move does not return. After a zero operation
  has read the position 500, a move by 100 targets 600.
\<close>

theorem move_to_target:
  assumes "zero_offset_um s = Some z"
  shows "resolve_target s relative_um =
           (case build_position_command (z + relative_um) of
              Inl e \<Rightarrow> Inl e
            | Inr frame \<Rightarrow> Inr (z + relative_um, frame))
         \<and> (\<forall>t frame. resolve_target s relative_um = Inr (t, frame)
              \<longrightarrow> t = z + relative_um
                  \<and> from_bytes_big_signed (slice frame 3 7) = z + relative_um)
         \<and> (\<forall>c s' tr. move_branch s relative_um env = Some (c, s', tr)
              \<longrightarrow> s' = s
                  \<and> (tr \<noteq> [] \<longrightarrow> hd tr = Print (Moving relative_um (z + relative_um)))
                  \<and> (\<forall>g. Write g \<in> set tr
                        \<longrightarrow> build_position_command (z + relative_um) = Inr g))
         \<and> (\<forall>frame rs r w. build_position_command (z + relative_um) = Inr frame
                \<and> (\<forall>j<length rs. env j = Reply (rs ! j) 0)
                \<and> env (length rs) = Reply r w \<and> 0 < w
              \<longrightarrow> move_branch s relative_um env =
                    Some (Prompt, s, Print (Moving relative_um (z + relative_um))
                            # concat (map (pass_actions frame) (rs @ [r]))))
         \<and> (\<forall>frame rs. build_position_command (z + relative_um) = Inr frame
                \<and> (\<forall>j<length rs. env j = Reply (rs ! j) 0)
                \<and> env (length rs) = Interrupt
              \<longrightarrow> move_branch s relative_um env =
                    Some (Interrupted, s, Print (Moving relative_um (z + relative_um))
                            # concat (map (pass_actions frame) rs)
                            @ [Print Streaming_Stopped]))
         \<and> (\<forall>frame. build_position_command (z + relative_um) = Inr frame
                \<and> (\<forall>j. \<exists>response. env j = Reply response 0)
              \<longrightarrow> move_branch s relative_um env = None)
         \<and> (\<forall>e. build_position_command (z + relative_um) = Inl e
              \<longrightarrow> move_branch s relative_um env = Some (Uncaught e, s, []))
         \<and> (\<forall>frame response. \<exists>line p.
                parse_motor_response_line (Some response) = Inr (line, p)
                \<and> pass_actions frame response = [Write frame, Print line])"
proof (intro conjI allI impI)
  show r: "resolve_target s relative_um =
           (case build_position_command (z + relative_um) of
              Inl e \<Rightarrow> Inl e
            | Inr frame \<Rightarrow> Inr (z + relative_um, frame))"
    using assms by (rule resolve_target_Some)
  {
    fix t frame
    assume "resolve_target s relative_um = Inr (t, frame)"
    with r have "t = z + relative_um \<and> build_position_command (z + relative_um) = Inr frame"
      by (cases "build_position_command (z + relative_um)") simp_all
    then show "t = z + relative_um"
      and "from_bytes_big_signed (slice frame 3 7) = z + relative_um"
      by (simp_all add: build_position_command_Inr)
  }
  {
    fix c s' tr
    assume m: "move_branch s relative_um env = Some (c, s', tr)"
    have "s' = s \<and> (tr \<noteq> [] \<longrightarrow> hd tr = Print (Moving relative_um (z + relative_um)))
        \<and> (\<forall>g. Write g \<in> set tr \<longrightarrow> build_position_command (z + relative_um) = Inr g)"
    proof (cases "build_position_command (z + relative_um)")
      case (Inl e)
      with r m show ?thesis by (simp add: move_branch_def)
    next
      case (Inr frame)
      with r have rt: "resolve_target s relative_um = Inr (z + relative_um, frame)"
        by simp
      show ?thesis
      proof (cases "streaming frame env 0 [Print (Moving relative_um (z + relative_um))]")
        case None
        with rt m show ?thesis by (simp add: move_branch_def)
      next
        case (Some y)
        from streaming_trace [OF Some] obtain ext
          where ext: "snd y = [Print (Moving relative_um (z + relative_um))] @ ext"
            "\<forall>g. Write g \<in> set ext \<longrightarrow> g = frame"
          by blast
        obtain x t where y: "y = (x, t)" by (cases y)
        from rt m Some y ext Inr show ?thesis
          by (cases x) (auto simp: move_branch_def)
      qed
    qed
    then show "s' = s"
      and "tr \<noteq> [] \<Longrightarrow> hd tr = Print (Moving relative_um (z + relative_um))"
      and "\<And>g. Write g \<in> set tr \<Longrightarrow> build_position_command (z + relative_um) = Inr g"
      by blast+
  }
  {
    fix frame rs r w
    assume a: "build_position_command (z + relative_um) = Inr frame
        \<and> (\<forall>j<length rs. env j = Reply (rs ! j) 0)
        \<and> env (length rs) = Reply r w \<and> 0 < w"
    with r have rt: "resolve_target s relative_um = Inr (z + relative_um, frame)"
      by simp
    from a have "streaming frame env 0 [Print (Moving relative_um (z + relative_um))]
        = Some (Break, [Print (Moving relative_um (z + relative_um))]
            @ concat (map (pass_actions frame) (rs @ [r])))"
      by (intro streaming_run_break) blast+
    with rt show "move_branch s relative_um env =
        Some (Prompt, s, Print (Moving relative_um (z + relative_um))
                # concat (map (pass_actions frame) (rs @ [r])))"
      by (simp add: move_branch_def)
  }
  {
    fix frame rs
    assume a: "build_position_command (z + relative_um) = Inr frame
        \<and> (\<forall>j<length rs. env j = Reply (rs ! j) 0)
        \<and> env (length rs) = Interrupt"
    with r have rt: "resolve_target s relative_um = Inr (z + relative_um, frame)"
      by simp
    from a have "streaming frame env 0 [Print (Moving relative_um (z + relative_um))]
        = Some (Ctrl_C, [Print (Moving relative_um (z + relative_um))]
            @ concat (map (pass_actions frame) rs))"
      by (intro streaming_run_interrupt) blast+
    with rt show "move_branch s relative_um env =
        Some (Interrupted, s, Print (Moving relative_um (z + relative_um))
                # concat (map (pass_actions frame) rs) @ [Print Streaming_Stopped])"
      by (simp add: move_branch_def)
  }
  {
    fix frame
    assume a: "build_position_command (z + relative_um) = Inr frame
        \<and> (\<forall>j. \<exists>response. env j = Reply response 0)"
    with r have rt: "resolve_target s relative_um = Inr (z + relative_um, frame)"
      by simp
    from a have "streaming frame env 0 [Print (Moving relative_um (z + relative_um))] = None"
      by (intro streaming_forever) blast
    with rt show "move_branch s relative_um env = None"
      by (simp add: move_branch_def)
  }
  {
    fix e
    assume "build_position_command (z + relative_um) = Inl e"
    with r show "move_branch s relative_um env = Some (Uncaught e, s, [])"
      by (simp add: move_branch_def)
  }
  fix frame response
  show "\<exists>line p. parse_motor_response_line (Some response) = Inr (line, p)
      \<and> pass_actions frame response = [Write frame, Print line]"
    by (rule pass_actions_line)
qed

theorem move_to_target_witness:
  "fst (snd (zero_branch initial_session
        [0x01, 0x64, 0, 0, 0x01, 0xF4, 0, 0, 0, 0, 0, 0, 0, 0, 0, 0, 0, 0, 0]))
     = \<lparr>zero_offset_um = Some 500\<rparr>
   \<and> resolve_target \<lparr>zero_offset_um = Some 500\<rparr> 100
     = Inr (600, [0x01, 0x64, 0x1E, 0, 0, 0x02, 0x58, 0xAB, 0x7C])
   \<and> from_bytes_big_signed (slice [0x01, 0x64, 0x1E, 0, 0, 0x02, 0x58, 0xAB, 0x7C] 3 7) = 600
   \<and> move_branch \<lparr>zero_offset_um = Some 500\<rparr> 100
       (then_forever [Reply [0x01, 0x64, 0x00] 0]
          (Reply [0x01, 0x65, 0, 0, 0x02, 0x58, 0, 0, 0, 0, 0, 0, 0, 0, 0, 0, 0, 0, 0] 2))
     = Some (Prompt, \<lparr>zero_offset_um = Some 500\<rparr>,
         [Print (Moving 100 600),
          Write [0x01, 0x64, 0x1E, 0, 0, 0x02, 0x58, 0xAB, 0x7C],
          Print Invalid_Response,
          Write [0x01, 0x64, 0x1E, 0, 0, 0x02, 0x58, 0xAB, 0x7C],
          Print (Unexpected_Function 0x65)])
   \<and> move_branch \<lparr>zero_offset_um = Some 500\<rparr> 100
       (then_forever [Reply [0x01, 0x64, 0x00] 0] Interrupt)
     = Some (Interrupted, \<lparr>zero_offset_um = Some 500\<rparr>,
         [Print (Moving 100 600),
          Write [0x01, 0x64, 0x1E, 0, 0, 0x02, 0x58, 0xAB, 0x7C],
          Print Invalid_Response,
          Print Streaming_Stopped])"
proof -
  let ?s = "\<lparr>zero_offset_um = Some 500\<rparr>"
  let ?f = "[0x01, 0x64, 0x1E, 0, 0, 0x02, 0x58, 0xAB, 0x7C] :: byte list"
  let ?short = "[0x01, 0x64, 0x00] :: byte list"
  let ?bad = "[0x01, 0x65, 0, 0, 0x02, 0x58, 0, 0, 0, 0, 0, 0, 0, 0, 0, 0, 0, 0, 0] :: byte list"
  let ?env = "then_forever [Reply ?short 0] (Reply ?bad 2)"
  let ?env' = "then_forever [Reply ?short 0] Interrupt"
  have s: "fst (snd (zero_branch initial_session
        [0x01, 0x64, 0, 0, 0x01, 0xF4, 0, 0, 0, 0, 0, 0, 0, 0, 0, 0, 0, 0, 0])) = ?s"
    by (simp add: zero_valid eval_fields initial_session_def)
  have z: "zero_offset_um ?s = Some 500"
    by simp
  have b: "build_position_command (500 + 100) = Inr ?f"
    by (simp add: eval_frame)
  have t: "resolve_target ?s 100 = Inr (500 + 100, ?f)"
    by (simp only: move_to_target [OF z, of 100, THEN conjunct1] b sum.case)
  from move_to_target [OF z, of 100, THEN conjunct2, THEN conjunct1, rule_format, OF t]
  have d: "from_bytes_big_signed (slice ?f 3 7) = 500 + 100"
    by (rule conjunct2)
  have p1: "pass_actions ?f ?short = [Write ?f, Print Invalid_Response]"
    by (simp add: pass_actions_def parse_bad_length)
  have p2: "pass_actions ?f ?bad = [Write ?f, Print (Unexpected_Function 0x65)]"
    by (simp add: pass_actions_def parse_bad_function)
  have e: "(\<forall>j<length [?short]. ?env j = Reply ([?short] ! j) 0)
      \<and> ?env (length [?short]) = Reply ?bad 2 \<and> (0::nat) < 2"
    by (simp add: then_forever_def)
  have e': "(\<forall>j<length [?short]. ?env' j = Reply ([?short] ! j) 0)
      \<and> ?env' (length [?short]) = Interrupt"
    by (simp add: then_forever_def)
  from move_to_target [OF z, of 100 ?env, THEN conjunct2, THEN conjunct2, THEN conjunct2,
      THEN conjunct1, rule_format, of ?f "[?short]" ?bad 2] b e
  have m: "move_branch ?s 100 ?env = Some (Prompt, ?s, Print (Moving 100 (500 + 100))
      # concat (map (pass_actions ?f) ([?short] @ [?bad])))"
    by blast
  from move_to_target [OF z, of 100 ?env', THEN conjunct2, THEN conjunct2, THEN conjunct2,
      THEN conjunct2, THEN conjunct1, rule_format, of ?f "[?short]"] b e'
  have m': "move_branch ?s 100 ?env' = Some (Interrupted, ?s, Print (Moving 100 (500 + 100))
      # concat (map (pass_actions ?f) [?short]) @ [Print Streaming_Stopped])"
    by blast
  from m p1 p2 have m2: "move_branch ?s 100 ?env = Some (Prompt, ?s,
         [Print (Moving 100 600), Write ?f, Print Invalid_Response,
          Write ?f, Print (Unexpected_Function 0x65)])"
    by simp
  from m' p1 have m2': "move_branch ?s 100 ?env' = Some (Interrupted, ?s,
         [Print (Moving 100 600), Write ?f, Print Invalid_Response, Print Streaming_Stopped])"
    by simp
  from s t d m2 m2' show ?thesis by simp
qed

section \<open>The claim on the operator console\<close>

lemma handle_input_rejects:
  assumes "py_lower (py_strip line) \<noteq> ''q''" and "py_lower (py_strip line) \<noteq> ''z''"
    and "parse_position round_binary64 (py_lower (py_strip line)) = Inl ValueError"
  shows "handle_input round_binary64 s line response env
           = Some (Prompt, s, [Print Invalid_Input])"
  using assms by (simp add: handle_input_def)

lemma handle_input_escapes:
  assumes "py_lower (py_strip line) \<noteq> ''q''" and "py_lower (py_strip line) \<noteq> ''z''"
    and "parse_position round_binary64 (py_lower (py_strip line)) = Inl OverflowError"
  shows "handle_input round_binary64 s line response env = Some (Uncaught OverflowError, s, [])"
  using assms by (simp add: handle_input_def)

lemma parse_position_inf:
  "parse_position round_binary64 ''inf'' = Inl OverflowError"
  "parse_position round_binary64 ''-infinity'' = Inl OverflowError"
  by (simp_all add: parse_position_def py_float_def unsigned_part_def is_negative_def
      py_int_def)

lemma parse_position_nan: "parse_position round_binary64 ''nan'' = Inl ValueError"
  by (simp add: parse_position_def py_float_def unsigned_part_def is_negative_def py_int_def)

lemma normalise_inf:
  "py_lower (py_strip ''inf'') = ''inf''"
  "py_lower (py_strip '' -Infinity '') = ''-infinity''"
  by code_simp+

text \<open>
  Claim C9. The claim says that every console line that is neither a number nor the zero
  nor the quit token is rejected with a new prompt, and that no exception leaves the
  input handler. The lines \<^verbatim>\<open>inf\<close> and \<^verbatim>\<open>-Infinity\<close> are no decimal numbers, yet
  \<^verbatim>\<open>float\<close> accepts them and \<^verbatim>\<open>int\<close> raises an OverflowError on the result; the handler
  catches ValueError only, so the exception leaves the main loop.
\<close>

theorem handle_input_inf_escapes:
  "handle_input round_binary64 s ''inf'' response env = Some (Uncaught OverflowError, s, [])
   \<and> handle_input round_binary64 s '' -Infinity '' response env
       = Some (Uncaught OverflowError, s, [])"
  by (simp add: handle_input_escapes normalise_inf parse_position_inf)

end
